theory Spec2Isabelle
  imports
    Complex_Main
    "HOL-Library.Sublist"
    "HOL-Library.Char_ord"
    "HOL-Library.List_Lexorder"
    "HOL-Library.Multiset"
    "HOL-Library.Log_Nat"
begin

section \<open>Data model\<close>

text \<open>
  The order record of the viewer (\<^verbatim>\<open>type DCAOrder\<close>). The field \<^verbatim>\<open>id\<close> is called
  \<open>order_id\<close> here, since \<open>id\<close> is the identity function of HOL. Strings are lists of
  characters, compared by character code as JavaScript's \<^verbatim>\<open><\<close> compares code units.
  The numeric field \<^verbatim>\<open>amount\<close> is a rational, as every finite double is; NaN and the
  infinities are outside this model, and the host's rounding addition is a parameter of
  the function that adds amounts. The two date fields are kept as the strings they are
  in the source.
\<close>

record DCAOrder =
  order_id :: string
  user :: string
  inputMint :: string
  outputMint :: string
  amount :: rat
  frequency :: string
  createdAt :: string
  executeAt :: string

text \<open>The filter state of the component (\<^verbatim>\<open>useState({search, inputMint, outputMint, user})\<close>).\<close>

record Filters =
  filter_search :: string
  filter_inputMint :: string
  filter_outputMint :: string
  filter_user :: string

section \<open>String operations of the host\<close>

text \<open>
  \<^verbatim>\<open>String.prototype.toLowerCase\<close> is the host's: every function that lower-cases takes
  it as the parameter \<open>toLowerCase\<close>. \<open>asciiLowerCase\<close> is what it does on strings of
  ASCII characters (it folds \<open>A\<close> to \<open>Z\<close> and leaves every other character as it is);
  the examples use it.
\<close>

definition lowerChar :: "char \<Rightarrow> char" where
  "lowerChar c = (if CHR ''A'' \<le> c \<and> c \<le> CHR ''Z'' then char_of (of_char c + (32::nat)) else c)"

definition asciiLowerCase :: "string \<Rightarrow> string" where
  "asciiLowerCase s = map lowerChar s"

text \<open>
  \<^verbatim>\<open>s.includes(t)\<close>: \<open>t\<close> occurs in \<open>s\<close> as a contiguous run of characters, searched
  from every start position.
\<close>

fun str_includes :: "string \<Rightarrow> string \<Rightarrow> bool" where
  "str_includes [] t = (t = [])"
| "str_includes (c # s) t = (prefix t (c # s) \<or> str_includes s t)"

section \<open>Filter Engine\<close>

text \<open>
  The predicate of the second \<^verbatim>\<open>filter\<close> call of \<^verbatim>\<open>filteredOrders\<close> in the tabbed
  component: user substring, the two mint selectors by equality, and the free-text search
  over three fields.
\<close>

definition matchesFilters :: "(string \<Rightarrow> string) \<Rightarrow> Filters \<Rightarrow> DCAOrder \<Rightarrow> bool" where
  "matchesFilters toLowerCase filters order \<longleftrightarrow>
     str_includes (toLowerCase (user order)) (toLowerCase (filter_user filters)) \<and>
     (filter_inputMint filters = [] \<or> inputMint order = filter_inputMint filters) \<and>
     (filter_outputMint filters = [] \<or> outputMint order = filter_outputMint filters) \<and>
     (str_includes (toLowerCase (user order)) (toLowerCase (filter_search filters)) \<or>
      str_includes (toLowerCase (inputMint order)) (toLowerCase (filter_search filters)) \<or>
      str_includes (toLowerCase (outputMint order)) (toLowerCase (filter_search filters)))"

definition filterOrders ::
  "(string \<Rightarrow> string) \<Rightarrow> Filters \<Rightarrow> DCAOrder list \<Rightarrow> DCAOrder list" where
  "filterOrders toLowerCase filters orders = filter (matchesFilters toLowerCase filters) orders"

text \<open>
  The predicate of the tab-less component (\<^verbatim>\<open>src/components/JupiterDCAViewer.tsx\<close>): the
  mint filters are text inputs there and match by case-insensitive substring.
\<close>

definition matchesFilters_text :: "(string \<Rightarrow> string) \<Rightarrow> Filters \<Rightarrow> DCAOrder \<Rightarrow> bool" where
  "matchesFilters_text toLowerCase filters order \<longleftrightarrow>
     str_includes (toLowerCase (user order)) (toLowerCase (filter_user filters)) \<and>
     str_includes (toLowerCase (inputMint order)) (toLowerCase (filter_inputMint filters)) \<and>
     str_includes (toLowerCase (outputMint order)) (toLowerCase (filter_outputMint filters)) \<and>
     (str_includes (toLowerCase (user order)) (toLowerCase (filter_search filters)) \<or>
      str_includes (toLowerCase (inputMint order)) (toLowerCase (filter_search filters)) \<or>
      str_includes (toLowerCase (outputMint order)) (toLowerCase (filter_search filters)))"

definition filterOrders_text ::
  "(string \<Rightarrow> string) \<Rightarrow> Filters \<Rightarrow> DCAOrder list \<Rightarrow> DCAOrder list" where
  "filterOrders_text toLowerCase filters orders =
     filter (matchesFilters_text toLowerCase filters) orders"

section \<open>Dates\<close>

text \<open>
  A \<^verbatim>\<open>Date\<close> is its time value in milliseconds since the epoch; \<open>None\<close> is the
  Invalid Date (time value NaN) that \<^verbatim>\<open>new Date(s)\<close> gives for a string it cannot read.
  The parser of the host is a parameter \<open>parseDate\<close> of every function that reads a date
  field. The reference instant \<^verbatim>\<open>new Date()\<close> is always valid, so it is an \<open>int\<close>.
  A relational operator with an Invalid Date on one side is false.
\<close>

type_synonym date = "int option"

definition date_gt :: "date \<Rightarrow> int \<Rightarrow> bool" where
  "date_gt d t = (case d of None \<Rightarrow> False | Some u \<Rightarrow> t < u)"

definition date_le :: "date \<Rightarrow> int \<Rightarrow> bool" where
  "date_le d t = (case d of None \<Rightarrow> False | Some u \<Rightarrow> u \<le> t)"

definition date_ge :: "date \<Rightarrow> int \<Rightarrow> bool" where
  "date_ge d t = (case d of None \<Rightarrow> False | Some u \<Rightarrow> t \<le> u)"

definition date_lt :: "date \<Rightarrow> int \<Rightarrow> bool" where
  "date_lt d t = (case d of None \<Rightarrow> False | Some u \<Rightarrow> u < t)"

text \<open>
  The time zone of the host, as the two conversions of ECMAScript: \<open>localTime\<close> takes an
  instant to the local time value (the wall clock), \<open>utcTime\<close> takes a local time value
  back to an instant.
\<close>

record timeZone =
  localTime :: "int \<Rightarrow> int"
  utcTime :: "int \<Rightarrow> int"

text \<open>
  \<^verbatim>\<open>d.setHours(d.getHours() + h)\<close>: the local time of \<open>d\<close> moves by \<open>h\<close> hours on the wall
  clock (minutes, seconds and milliseconds stay, hours past 23 carry into the day) and is
  read back as an instant.
\<close>

definition setHoursPlus :: "timeZone \<Rightarrow> int \<Rightarrow> int \<Rightarrow> int" where
  "setHoursPlus tz d h = utcTime tz (localTime tz d + h * (60 * 60 * 1000))"

section \<open>Time-Window Partitioner\<close>

text \<open>The active tab: \<^verbatim>\<open>'Next Hour' | 'Next Day' | 'All'\<close>.\<close>

datatype tab = NextHour | NextDay | AllTab

text \<open>The predicate of the first \<^verbatim>\<open>filter\<close> call of \<^verbatim>\<open>filteredOrders\<close>.\<close>

definition inTab :: "(string \<Rightarrow> date) \<Rightarrow> int \<Rightarrow> tab \<Rightarrow> DCAOrder \<Rightarrow> bool" where
  "inTab parseDate now activeTab order =
     (let executeTime = parseDate (executeAt order) in
      if activeTab = NextHour then
        date_gt executeTime now \<and> date_le executeTime (now + 60 * 60 * 1000)
      else if activeTab = NextDay then
        date_gt executeTime now \<and> date_le executeTime (now + 24 * 60 * 60 * 1000)
      else True)"

definition relevantOrders ::
  "(string \<Rightarrow> date) \<Rightarrow> int \<Rightarrow> tab \<Rightarrow> DCAOrder list \<Rightarrow> DCAOrder list" where
  "relevantOrders parseDate now activeTab orders = filter (inTab parseDate now activeTab) orders"

section \<open>Sort Engine\<close>

text \<open>
  \<^verbatim>\<open>Array.prototype.sort(cmp)\<close>. ECMAScript asks for a stable sort and leaves the order
  to the implementation when the comparator is not consistent. The model is a stable
  insertion sort: each element, taken in input order, goes before the first element of
  the sorted prefix that it precedes, and \<open>x\<close> precedes \<open>y\<close> only when \<open>cmp x y < 0\<close>.
  That sign test is the one V8's insertion and merge steps make of a comparator's result,
  so the model follows V8 whenever "\<open>cmp x y < 0\<close>" orders the elements (ties allowed),
  as every comparator below does; for a consistent comparator every stable sort returns
  this list. An engine that tests \<open>cmp x y \<le> 0\<close> instead may order the ties of an
  inconsistent comparator differently.
\<close>

fun insertSorted :: "('a \<Rightarrow> 'a \<Rightarrow> int) \<Rightarrow> 'a \<Rightarrow> 'a list \<Rightarrow> 'a list" where
  "insertSorted cmp x [] = [x]"
| "insertSorted cmp x (y # ys) =
     (if cmp x y < 0 then x # y # ys else y # insertSorted cmp x ys)"

definition array_sort :: "('a \<Rightarrow> 'a \<Rightarrow> int) \<Rightarrow> 'a list \<Rightarrow> 'a list" where
  "array_sort cmp xs = foldl (\<lambda>sorted x. insertSorted cmp x sorted) [] xs"

text \<open>
  A second stable insertion sort, which takes the elements from the right and keeps an
  earlier element \<open>x\<close> before a later \<open>y\<close> when \<open>cmp x y \<le> 0\<close>. For a consistent
  comparator it is as good a reading of \<^verbatim>\<open>Array.prototype.sort\<close> as the first; where the
  two differ, the comparator is not consistent and the order depends on the engine.
\<close>

fun insertSorted_le :: "('a \<Rightarrow> 'a \<Rightarrow> int) \<Rightarrow> 'a \<Rightarrow> 'a list \<Rightarrow> 'a list" where
  "insertSorted_le cmp x [] = [x]"
| "insertSorted_le cmp x (y # ys) =
     (if cmp x y \<le> 0 then x # y # ys else y # insertSorted_le cmp x ys)"

definition array_sort_le :: "('a \<Rightarrow> 'a \<Rightarrow> int) \<Rightarrow> 'a list \<Rightarrow> 'a list" where
  "array_sort_le cmp xs = foldr (insertSorted_le cmp) xs []"

text \<open>The sort direction of the table library: \<^verbatim>\<open>'ascend' | 'descend' | null\<close>.\<close>

datatype sortOrder = Ascend | Descend | NoOrder

text \<open>
  The sort configuration. At run time the key is a string, and \<^verbatim>\<open>a[key]\<close> is
  \<^verbatim>\<open>undefined\<close> for a key that is no field of the record.
\<close>

record SortConfig =
  key :: string
  direction :: sortOrder

text \<open>
  \<^verbatim>\<open>a[key] < b[key]\<close> and \<^verbatim>\<open>a[key] > b[key]\<close>: strings by code units, the amount
  numerically; with \<^verbatim>\<open>undefined\<close> on both sides either comparison is false.
\<close>

definition fieldLess :: "string \<Rightarrow> DCAOrder \<Rightarrow> DCAOrder \<Rightarrow> bool" where
  "fieldLess k a b =
     (if k = ''id'' then order_id a < order_id b
      else if k = ''user'' then user a < user b
      else if k = ''inputMint'' then inputMint a < inputMint b
      else if k = ''outputMint'' then outputMint a < outputMint b
      else if k = ''amount'' then amount a < amount b
      else if k = ''frequency'' then frequency a < frequency b
      else if k = ''createdAt'' then createdAt a < createdAt b
      else if k = ''executeAt'' then executeAt a < executeAt b
      else False)"

definition fieldGreater :: "string \<Rightarrow> DCAOrder \<Rightarrow> DCAOrder \<Rightarrow> bool" where
  "fieldGreater k a b =
     (if k = ''id'' then order_id a > order_id b
      else if k = ''user'' then user a > user b
      else if k = ''inputMint'' then inputMint a > inputMint b
      else if k = ''outputMint'' then outputMint a > outputMint b
      else if k = ''amount'' then amount a > amount b
      else if k = ''frequency'' then frequency a > frequency b
      else if k = ''createdAt'' then createdAt a > createdAt b
      else if k = ''executeAt'' then executeAt a > executeAt b
      else False)"

text \<open>The derived token pair, \<^verbatim>\<open>`${order.outputMint}-${order.inputMint}`\<close>.\<close>

definition tokenPair :: "DCAOrder \<Rightarrow> string" where
  "tokenPair order = outputMint order @ ''-'' @ inputMint order"

text \<open>
  The comparator of the component with the token-pair column. The collation
  \<^verbatim>\<open>String.prototype.localeCompare\<close> of the host is the parameter \<open>localeCompare\<close>.
\<close>

definition compareOrders ::
  "(string \<Rightarrow> string \<Rightarrow> int) \<Rightarrow> SortConfig \<Rightarrow> DCAOrder \<Rightarrow> DCAOrder \<Rightarrow> int" where
  "compareOrders localeCompare sortConfig a b =
     (if key sortConfig = ''tokenPair'' then
        (let pairA = tokenPair a; pairB = tokenPair b in
         if direction sortConfig = Ascend then localeCompare pairA pairB
         else localeCompare pairB pairA)
      else if direction sortConfig = Ascend then
        (if fieldLess (key sortConfig) a b then - 1 else 1)
      else if direction sortConfig = Descend then
        (if fieldGreater (key sortConfig) a b then - 1 else 1)
      else 0)"

definition sortOrders ::
  "(string \<Rightarrow> string \<Rightarrow> int) \<Rightarrow> SortConfig \<Rightarrow> DCAOrder list \<Rightarrow> DCAOrder list" where
  "sortOrders localeCompare sortConfig orders =
     array_sort (compareOrders localeCompare sortConfig) orders"

text \<open>
  The comparator of the component whose table can clear the sort (direction
  \<^verbatim>\<open>null\<close>); it has no token-pair column.
\<close>

definition compareByField :: "SortConfig \<Rightarrow> DCAOrder \<Rightarrow> DCAOrder \<Rightarrow> int" where
  "compareByField sortConfig a b =
     (if direction sortConfig = NoOrder then 0
      else if fieldLess (key sortConfig) a b then
        (if direction sortConfig = Ascend then - 1 else 1)
      else if fieldGreater (key sortConfig) a b then
        (if direction sortConfig = Ascend then 1 else - 1)
      else 0)"

definition sortOrders_byField :: "SortConfig \<Rightarrow> DCAOrder list \<Rightarrow> DCAOrder list" where
  "sortOrders_byField sortConfig orders = array_sort (compareByField sortConfig) orders"

text \<open>The rows of the table: partition by tab, filter, sort.\<close>

definition filteredOrders ::
  "(string \<Rightarrow> string \<Rightarrow> int) \<Rightarrow> (string \<Rightarrow> string) \<Rightarrow> (string \<Rightarrow> date) \<Rightarrow> int \<Rightarrow> tab \<Rightarrow>
   Filters \<Rightarrow> SortConfig \<Rightarrow> DCAOrder list \<Rightarrow> DCAOrder list" where
  "filteredOrders localeCompare toLowerCase parseDate now activeTab filters sortConfig orders =
     sortOrders localeCompare sortConfig
       (filterOrders toLowerCase filters (relevantOrders parseDate now activeTab orders))"

text \<open>
  What the properties of the Sort Engine are stated with. The names of the record's
  fields; two orders have the same sort key when the comparator's key values agree (for an
  unknown key both values are \<^verbatim>\<open>undefined\<close>); a collation is consistent when swapping
  its arguments swaps the sign and "comes before" is transitive; comparison by code units
  is one such collation; \<open>comesBefore\<close> is the order an ascending sort aims at.
\<close>

definition orderFields :: "string list" where
  "orderFields =
     [''id'', ''user'', ''inputMint'', ''outputMint'', ''amount'', ''frequency'',
      ''createdAt'', ''executeAt'']"

definition sameKey :: "(string \<Rightarrow> string \<Rightarrow> int) \<Rightarrow> string \<Rightarrow> DCAOrder \<Rightarrow> DCAOrder \<Rightarrow> bool" where
  "sameKey localeCompare k a b =
     (if k = ''tokenPair'' then localeCompare (tokenPair a) (tokenPair b) = 0
      else if k = ''id'' then order_id a = order_id b
      else if k = ''user'' then user a = user b
      else if k = ''inputMint'' then inputMint a = inputMint b
      else if k = ''outputMint'' then outputMint a = outputMint b
      else if k = ''amount'' then amount a = amount b
      else if k = ''frequency'' then frequency a = frequency b
      else if k = ''createdAt'' then createdAt a = createdAt b
      else if k = ''executeAt'' then executeAt a = executeAt b
      else True)"

definition consistentCollation :: "(string \<Rightarrow> string \<Rightarrow> int) \<Rightarrow> bool" where
  "consistentCollation c \<longleftrightarrow>
     (\<forall>s t. (c s t < 0) = (0 < c t s)) \<and>
     (\<forall>s t u. c s t < 0 \<and> c t u < 0 \<longrightarrow> c s u < 0)"

definition codeUnitCompare :: "string \<Rightarrow> string \<Rightarrow> int" where
  "codeUnitCompare s t = (if s < t then - 1 else if t < s then 1 else 0)"

definition comesBefore :: "(string \<Rightarrow> string \<Rightarrow> int) \<Rightarrow> string \<Rightarrow> DCAOrder \<Rightarrow> DCAOrder \<Rightarrow> bool" where
  "comesBefore localeCompare k a b =
     (if k = ''tokenPair'' then localeCompare (tokenPair a) (tokenPair b) < 0
      else fieldLess k a b)"

section \<open>Aggregation Engine\<close>

text \<open>
  The predicate of the \<^verbatim>\<open>filter\<close> call inside \<^verbatim>\<open>fetchAggregateUSDCValue\<close>, for the
  bucket \<open>index\<close> of the range that starts at \<open>past24Hours\<close>.
\<close>

definition inBucket :: "timeZone \<Rightarrow> (string \<Rightarrow> date) \<Rightarrow> int \<Rightarrow> nat \<Rightarrow> DCAOrder \<Rightarrow> bool" where
  "inBucket tz parseDate past24Hours index order =
     (let hourStart = setHoursPlus tz past24Hours (int index);
          hourEnd = setHoursPlus tz hourStart 1;
          executeAt = parseDate (executeAt order)
      in date_ge executeAt hourStart \<and> date_lt executeAt hourEnd \<and> inputMint order = ''USDC'')"

text \<open>
  The chart series: 24 labels and 24 sums. The host's addition of numbers (IEEE 754
  doubles, every one of which is a rational) is the parameter \<open>add\<close>, its time zone the
  parameter \<open>tz\<close>, its formatter \<^verbatim>\<open>Date.prototype.toLocaleTimeString\<close> the parameter
  \<open>toLocaleTimeString\<close>. The result is the pair (\<^verbatim>\<open>labels\<close>, \<^verbatim>\<open>datasets[0].data\<close>).
\<close>

definition fetchAggregateUSDCValue ::
  "(rat \<Rightarrow> rat \<Rightarrow> rat) \<Rightarrow> timeZone \<Rightarrow> (int \<Rightarrow> string) \<Rightarrow> (string \<Rightarrow> date) \<Rightarrow> int \<Rightarrow>
   DCAOrder list \<Rightarrow> string list \<times> rat list" where
  "fetchAggregateUSDCValue add tz toLocaleTimeString parseDate now orders =
     (let past24Hours = now - 24 * 60 * 60 * 1000;
          labels = map (\<lambda>i. toLocaleTimeString (setHoursPlus tz past24Hours (int i))) [0..<24];
          data = map (\<lambda>index.
                   foldl (\<lambda>sum order. add sum (amount order)) 0
                     (filter (inBucket tz parseDate past24Hours index) orders))
                 [0..<length labels]
      in (labels, data))"




text \<open>
  IEEE 754 addition of doubles in the normal range (no overflow, no subnormal result):
  the exact sum, rounded to 53 significant bits, ties to the even significand.
  \<open>binade a\<close> is the exponent \<open>e\<close> with \<open>2^e \<le> a < 2^(e+1)\<close>.
\<close>

definition roundHalfEven :: "rat \<Rightarrow> int" where
  "roundHalfEven q =
     (let f = \<lfloor>q\<rfloor>; r = q - of_int f
      in if r < 1 / 2 then f else if 1 / 2 < r then f + 1 else if even f then f else f + 1)"

definition binade :: "rat \<Rightarrow> int" where
  "binade a =
     (let e = bitlen (fst (quotient_of a)) - bitlen (snd (quotient_of a))
      in if 2 powi e \<le> a then e else e - 1)"

definition roundDouble :: "rat \<Rightarrow> rat" where
  "roundDouble x =
     (if x = 0 then 0
      else let ulp = 2 powi (binade \<bar>x\<bar> - 52)
           in sgn x * of_int (roundHalfEven (\<bar>x\<bar> / ulp)) * ulp)"

definition ieeeAdd :: "rat \<Rightarrow> rat \<Rightarrow> rat" where
  "ieeeAdd x y = roundDouble (x + y)"

text \<open>
  Two time zones: UTC, and America/New_York around its change to daylight-saving time on
  2024-03-10 at 07:00 UTC (02:00 local, offset -5 h before and -4 h after). The local
  times from 02:00 to 03:00 of that day do not exist; ECMAScript reads them with the
  offset before the change.
\<close>

definition utcZone :: timeZone where
  "utcZone = \<lparr>localTime = (\<lambda>t. t), utcTime = (\<lambda>t. t)\<rparr>"

definition newYorkSpring2024 :: timeZone where
  "newYorkSpring2024 =
     \<lparr>localTime = (\<lambda>t. if t < 1710054000000 then t - 18000000 else t - 14400000),
      utcTime = (\<lambda>t. if t < 1710039600000 then t + 18000000 else t + 14400000)\<rparr>"

section \<open>Example data\<close>

text \<open>
  The two orders of the specification's scenarios, with the reference instant
  2024-01-01T00:00:00Z, and a third order of the second one's token pair that was due an
  hour before. \<open>parseISO\<close> gives the time values of the date strings that occur in the
  examples and reads nothing else.
\<close>

definition exampleNow :: int where
  "exampleNow = 1704067200000"

definition parseISO :: "string \<Rightarrow> date" where
  "parseISO s =
     (if s = ''2023-12-31T12:00:00.000Z'' then Some 1704024000000
      else if s = ''2023-12-31T23:00:00.000Z'' then Some 1704063600000
      else if s = ''2024-01-01T00:30:00.000Z'' then Some 1704069000000
      else if s = ''2024-01-01T02:00:00.000Z'' then Some 1704074400000
      else if s = ''2024-03-10T07:30:00.000Z'' then Some 1710055800000
      else if s = ''2024-03-10T11:30:00.000Z'' then Some 1710070200000
      else None)"

definition order1 :: DCAOrder where
  "order1 = \<lparr>order_id = ''order-0'', user = ''u1'', inputMint = ''SOL'', outputMint = ''BTC'',
     amount = 100, frequency = ''daily'', createdAt = ''2023-12-31T12:00:00.000Z'',
     executeAt = ''2024-01-01T00:30:00.000Z''\<rparr>"

definition order2 :: DCAOrder where
  "order2 = \<lparr>order_id = ''order-1'', user = ''u2'', inputMint = ''USDC'', outputMint = ''RAY'',
     amount = 50, frequency = ''weekly'', createdAt = ''2023-12-31T23:00:00.000Z'',
     executeAt = ''2024-01-01T02:00:00.000Z''\<rparr>"

definition order3 :: DCAOrder where
  "order3 = \<lparr>order_id = ''order-2'', user = ''u3'', inputMint = ''USDC'', outputMint = ''RAY'',
     amount = 75, frequency = ''daily'', createdAt = ''2023-12-31T12:00:00.000Z'',
     executeAt = ''2023-12-31T23:00:00.000Z''\<rparr>"

definition noFilters :: Filters where
  "noFilters = \<lparr>filter_search = [], filter_inputMint = [], filter_outputMint = [],
     filter_user = []\<rparr>"

text \<open>
  Criteria whose free-text search matches the first order while the user filter does not;
  criteria whose input-mint text is a lower-case part of a mint; and a 24-hour UTC
  rendering of \<^verbatim>\<open>toLocaleTimeString\<close> with two-digit hour and minute.
\<close>

definition exampleFilters :: Filters where
  "exampleFilters = \<lparr>filter_search = ''U1'', filter_inputMint = [], filter_outputMint = [],
     filter_user = ''u2''\<rparr>"

definition usdFilters :: Filters where
  "usdFilters = \<lparr>filter_search = [], filter_inputMint = ''usd'', filter_outputMint = [],
     filter_user = []\<rparr>"

definition twoDigits :: "nat \<Rightarrow> string" where
  "twoDigits n = [char_of (48 + n div 10 mod 10), char_of (48 + n mod 10)]"

definition formatUTC :: "int \<Rightarrow> string" where
  "formatUTC t =
     twoDigits (nat (t div 3600000 mod 24)) @ '':'' @ twoDigits (nat (t div 60000 mod 60))"



definition springNow :: int where
  "springNow = 1710072000000"

definition orderMorning :: DCAOrder where
  "orderMorning = \<lparr>order_id = ''order-5'', user = ''u6'', inputMint = ''USDC'', outputMint = ''BTC'',
     amount = 50, frequency = ''daily'', createdAt = ''2023-12-31T12:00:00.000Z'',
     executeAt = ''2024-03-10T07:30:00.000Z''\<rparr>"


section \<open>Properties of the string operations\<close>

lemma includes_iff_sublist: "str_includes s t \<longleftrightarrow> sublist t s"
  by (induction s) (auto simp: sublist_Cons_right)

lemma includes_iff: "str_includes s t \<longleftrightarrow> (\<exists>p q. s = p @ t @ q)"
  by (simp add: includes_iff_sublist sublist_def)

section \<open>Properties of the sort model\<close>

lemma insertSorted_no_before:
  "\<forall>y \<in> set ys. \<not> cmp x y < 0 \<Longrightarrow> insertSorted cmp x ys = ys @ [x]"
  by (induction ys) auto

lemma array_sort_snoc:
  "array_sort cmp (xs @ [x]) = insertSorted cmp x (array_sort cmp xs)"
  by (simp add: array_sort_def)

lemma array_sort_Nil: "array_sort cmp [] = []"
  by (simp add: array_sort_def)

lemma mset_insertSorted: "mset (insertSorted cmp x ys) = add_mset x (mset ys)"
  by (induction ys) auto

lemma set_insertSorted: "set (insertSorted cmp x ys) = insert x (set ys)"
  by (induction ys) auto

lemma mset_array_sort: "mset (array_sort cmp xs) = mset xs"
  by (induction xs rule: rev_induct) (auto simp: array_sort_Nil array_sort_snoc mset_insertSorted)

lemma set_array_sort: "set (array_sort cmp xs) = set xs"
  by (metis mset_array_sort set_mset_mset)

lemma distinct_array_sort: "distinct (array_sort cmp xs) = distinct xs"
  by (rule mset_eq_imp_distinct_iff) (rule mset_array_sort)

lemma array_sort_never_before:
  "\<forall>a \<in> set xs. \<forall>b \<in> set xs. \<not> cmp a b < 0 \<Longrightarrow> array_sort cmp xs = xs"
proof (induction xs rule: rev_induct)
  case Nil
  show ?case by (simp add: array_sort_Nil)
next
  case (snoc x xs)
  then have "array_sort cmp xs = xs" by simp
  moreover from snoc.prems have "\<forall>y \<in> set xs. \<not> cmp x y < 0" by simp
  ultimately show ?case
    by (simp add: array_sort_snoc insertSorted_no_before)
qed

lemma sorted_wrt_insertSorted:
  assumes "sorted_wrt (\<lambda>a b. cmp a b < 0) ys"
    and "\<forall>y \<in> set ys. cmp x y < 0 \<or> cmp y x < 0"
    and "x \<in> S" and "set ys \<subseteq> S"
    and trans: "\<And>a b c. a \<in> S \<Longrightarrow> b \<in> S \<Longrightarrow> c \<in> S \<Longrightarrow> cmp a b < 0 \<Longrightarrow> cmp b c < 0 \<Longrightarrow> cmp a c < 0"
  shows "sorted_wrt (\<lambda>a b. cmp a b < 0) (insertSorted cmp x ys)"
  using assms(1,2,4)
proof (induction ys)
  case Nil
  show ?case by simp
next
  case (Cons y ys)
  have sorted_tl: "sorted_wrt (\<lambda>a b. cmp a b < 0) ys"
    and y_first: "\<forall>z \<in> set ys. cmp y z < 0"
    using Cons.prems(1) by simp_all
  have yS: "y \<in> S" and ysS: "set ys \<subseteq> S" using Cons.prems(3) by simp_all
  show ?case
  proof (cases "cmp x y < 0")
    case True
    have "\<forall>z \<in> set ys. cmp x z < 0"
    proof
      fix z assume z: "z \<in> set ys"
      with y_first have "cmp y z < 0" by simp
      moreover have "z \<in> S" using z ysS by blast
      ultimately show "cmp x z < 0" using True trans [of x y z] assms(3) yS by simp
    qed
    with True Cons.prems(1) show ?thesis by simp
  next
    case False
    with Cons.prems(2) have yx: "cmp y x < 0" by simp
    have "sorted_wrt (\<lambda>a b. cmp a b < 0) (insertSorted cmp x ys)"
    proof (rule Cons.IH [OF sorted_tl _ ysS])
      show "\<forall>y \<in> set ys. cmp x y < 0 \<or> cmp y x < 0" using Cons.prems(2) by simp
    qed
    moreover have "\<forall>w \<in> set (insertSorted cmp x ys). cmp y w < 0"
      using yx y_first by (simp add: set_insertSorted)
    ultimately show ?thesis using False by simp
  qed
qed

lemma sorted_wrt_unique:
  assumes "sorted_wrt R xs" and "sorted_wrt R ys"
    and "distinct xs" and "distinct ys" and "set xs = set ys"
    and "\<forall>a \<in> set xs. \<forall>b \<in> set xs. R a b \<longrightarrow> \<not> R b a"
  shows "xs = ys"
  using assms
proof (induction xs arbitrary: ys)
  case Nil
  then show ?case by simp
next
  case (Cons x xs)
  from Cons.prems(5) have "ys \<noteq> []" by auto
  then obtain y ys' where ys: "ys = y # ys'" by (cases ys) simp_all
  have sets: "insert x (set xs) = insert y (set ys')" using Cons.prems(5) ys by simp
  have x_notin: "x \<notin> set xs" and y_notin: "y \<notin> set ys'"
    using Cons.prems(3,4) ys by simp_all
  have "y = x"
  proof (rule ccontr)
    assume ne: "y \<noteq> x"
    have "y \<in> insert x (set xs)" by (simp only: sets) simp
    with ne have "y \<in> set xs" by simp
    with Cons.prems(1) have "R x y" by simp
    moreover have "x \<in> insert y (set ys')" by (simp only: sets [symmetric]) simp
    with ne have "x \<in> set ys'" by simp
    with Cons.prems(2) ys have "R y x" by simp
    moreover have "x \<in> set (x # xs)" "y \<in> set (x # xs)" using \<open>y \<in> set xs\<close> by simp_all
    ultimately show False using Cons.prems(6) by blast
  qed
  moreover have "xs = ys'"
  proof (rule Cons.IH)
    show "sorted_wrt R xs" using Cons.prems(1) by simp
    show "sorted_wrt R ys'" using Cons.prems(2) ys by simp
    show "distinct xs" using Cons.prems(3) by simp
    show "distinct ys'" using Cons.prems(4) ys by simp
    show "set xs = set ys'" using sets x_notin y_notin \<open>y = x\<close> by (simp add: insert_ident)
    show "\<forall>a \<in> set xs. \<forall>b \<in> set xs. R a b \<longrightarrow> \<not> R b a" using Cons.prems(6) by simp
  qed
  ultimately show ?case using ys by simp
qed

lemma array_sort_sorted:
  assumes "distinct xs" and "set xs \<subseteq> S"
    and total: "\<And>a b. a \<in> S \<Longrightarrow> b \<in> S \<Longrightarrow> a \<noteq> b \<Longrightarrow> cmp a b < 0 \<or> cmp b a < 0"
    and trans: "\<And>a b c. a \<in> S \<Longrightarrow> b \<in> S \<Longrightarrow> c \<in> S \<Longrightarrow> cmp a b < 0 \<Longrightarrow> cmp b c < 0 \<Longrightarrow> cmp a c < 0"
  shows "sorted_wrt (\<lambda>a b. cmp a b < 0) (array_sort cmp xs)"
  using assms(1,2)
proof (induction xs rule: rev_induct)
  case Nil
  show ?case by (simp add: array_sort_Nil)
next
  case (snoc x xs)
  have xS: "x \<in> S" and xsS: "set xs \<subseteq> S" and x_new: "x \<notin> set xs" and dist: "distinct xs"
    using snoc.prems by simp_all
  have "sorted_wrt (\<lambda>a b. cmp a b < 0) (insertSorted cmp x (array_sort cmp xs))"
  proof (rule sorted_wrt_insertSorted [where S = S])
    show "sorted_wrt (\<lambda>a b. cmp a b < 0) (array_sort cmp xs)" using snoc.IH dist xsS by simp
    show "\<forall>y \<in> set (array_sort cmp xs). cmp x y < 0 \<or> cmp y x < 0"
    proof
      fix y assume "y \<in> set (array_sort cmp xs)"
      then have y: "y \<in> set xs" by (simp add: set_array_sort)
      with x_new have "x \<noteq> y" by blast
      moreover have "y \<in> S" using y xsS by blast
      ultimately show "cmp x y < 0 \<or> cmp y x < 0" using total [of x y] xS by simp
    qed
    show "x \<in> S" by (rule xS)
    show "set (array_sort cmp xs) \<subseteq> S" using xsS by (simp add: set_array_sort)
    fix a b c
    assume "a \<in> S" "b \<in> S" "c \<in> S" "cmp a b < 0" "cmp b c < 0"
    then show "cmp a c < 0" by (rule trans)
  qed
  then show ?case by (simp add: array_sort_snoc)
qed

lemma rev_array_sort:
  assumes dist: "distinct xs"
    and flip: "\<And>a b. (cmpD a b < 0) = (cmpA b a < 0)"
    and total: "\<And>a b. a \<in> set xs \<Longrightarrow> b \<in> set xs \<Longrightarrow> a \<noteq> b \<Longrightarrow> cmpA a b < 0 \<or> cmpA b a < 0"
    and asym: "\<And>a b. a \<in> set xs \<Longrightarrow> b \<in> set xs \<Longrightarrow> cmpA a b < 0 \<Longrightarrow> \<not> cmpA b a < 0"
    and trans: "\<And>a b c. a \<in> set xs \<Longrightarrow> b \<in> set xs \<Longrightarrow> c \<in> set xs \<Longrightarrow>
                  cmpA a b < 0 \<Longrightarrow> cmpA b c < 0 \<Longrightarrow> cmpA a c < 0"
  shows "rev (array_sort cmpA xs) = array_sort cmpD xs"
proof (rule sorted_wrt_unique [where R = "\<lambda>a b. cmpD a b < 0"])
  have "sorted_wrt (\<lambda>a b. cmpA a b < 0) (array_sort cmpA xs)"
  proof (rule array_sort_sorted [where S = "set xs"])
    show "distinct xs" by (rule dist)
    show "set xs \<subseteq> set xs" by simp
  next
    fix a b assume "a \<in> set xs" "b \<in> set xs" "a \<noteq> b"
    then show "cmpA a b < 0 \<or> cmpA b a < 0" by (rule total)
  next
    fix a b c assume "a \<in> set xs" "b \<in> set xs" "c \<in> set xs" "cmpA a b < 0" "cmpA b c < 0"
    then show "cmpA a c < 0" by (rule trans)
  qed
  then have "sorted_wrt (\<lambda>a b. cmpA b a < 0) (rev (array_sort cmpA xs))"
    by (simp add: sorted_wrt_rev)
  then show "sorted_wrt (\<lambda>a b. cmpD a b < 0) (rev (array_sort cmpA xs))"
    by (simp add: flip)
  show "sorted_wrt (\<lambda>a b. cmpD a b < 0) (array_sort cmpD xs)"
  proof (rule array_sort_sorted [where S = "set xs"])
    show "distinct xs" by (rule dist)
    show "set xs \<subseteq> set xs" by simp
  next
    fix a b assume "a \<in> set xs" "b \<in> set xs" "a \<noteq> b"
    then have "cmpA b a < 0 \<or> cmpA a b < 0" using total [of b a] by blast
    then show "cmpD a b < 0 \<or> cmpD b a < 0" by (simp add: flip)
  next
    fix a b c assume "a \<in> set xs" "b \<in> set xs" "c \<in> set xs" "cmpD a b < 0" "cmpD b c < 0"
    then have "cmpA c a < 0" using trans [of c b a] by (simp add: flip)
    then show "cmpD a c < 0" by (simp add: flip)
  qed
  show "distinct (rev (array_sort cmpA xs))" using dist by (simp add: distinct_array_sort)
  show "distinct (array_sort cmpD xs)" using dist by (simp add: distinct_array_sort)
  show "set (rev (array_sort cmpA xs)) = set (array_sort cmpD xs)" by (simp add: set_array_sort)
  show "\<forall>a \<in> set (rev (array_sort cmpA xs)). \<forall>b \<in> set (rev (array_sort cmpA xs)).
          cmpD a b < 0 \<longrightarrow> \<not> cmpD b a < 0"
  proof (intro ballI impI)
    fix a b
    assume "a \<in> set (rev (array_sort cmpA xs))" "b \<in> set (rev (array_sort cmpA xs))"
      and ab: "cmpD a b < 0"
    then have a: "a \<in> set xs" and b: "b \<in> set xs" by (simp_all add: set_array_sort)
    from ab have "cmpA b a < 0" by (simp add: flip)
    then have "\<not> cmpA a b < 0" using asym [of b a] a b by blast
    then show "\<not> cmpD b a < 0" by (simp add: flip)
  qed
qed

section \<open>Properties of the comparators\<close>

lemma fieldGreater_flip: "fieldGreater k a b = fieldLess k b a"
  by (simp add: fieldGreater_def fieldLess_def)

lemma fieldLess_total:
  "\<not> sameKey lc k a b \<Longrightarrow> k \<noteq> ''tokenPair'' \<Longrightarrow> fieldLess k a b \<or> fieldLess k b a"
  unfolding sameKey_def fieldLess_def
  by (auto split: if_splits)

lemma fieldLess_asym: "fieldLess k a b \<Longrightarrow> \<not> fieldLess k b a"
  unfolding fieldLess_def
  by (simp split: if_splits)

lemma fieldLess_trans: "fieldLess k a b \<Longrightarrow> fieldLess k b c \<Longrightarrow> fieldLess k a c"
  unfolding fieldLess_def
  by (simp split: if_splits)

lemma compareOrders_ascend_before:
  "(compareOrders lc \<lparr>key = k, direction = Ascend\<rparr> a b < 0) = comesBefore lc k a b"
  by (simp add: compareOrders_def comesBefore_def Let_def)

lemma compareOrders_descend_before:
  "(compareOrders lc \<lparr>key = k, direction = Descend\<rparr> a b < 0) = comesBefore lc k b a"
  by (simp add: compareOrders_def comesBefore_def Let_def fieldGreater_flip)

lemma comesBefore_total:
  assumes "consistentCollation lc" and "\<not> sameKey lc k a b"
  shows "comesBefore lc k a b \<or> comesBefore lc k b a"
proof (cases "k = ''tokenPair''")
  case True
  with assms(2) have "lc (tokenPair a) (tokenPair b) \<noteq> 0" by (simp add: sameKey_def)
  moreover from assms(1) have "(lc (tokenPair b) (tokenPair a) < 0) = (0 < lc (tokenPair a) (tokenPair b))"
    by (simp add: consistentCollation_def)
  ultimately show ?thesis using True by (simp add: comesBefore_def) linarith
next
  case False
  with assms(2) show ?thesis
    by (simp add: comesBefore_def fieldLess_total)
qed

lemma comesBefore_asym:
  assumes "consistentCollation lc" and "comesBefore lc k a b"
  shows "\<not> comesBefore lc k b a"
proof (cases "k = ''tokenPair''")
  case True
  from assms(1) have "(lc (tokenPair a) (tokenPair b) < 0) = (0 < lc (tokenPair b) (tokenPair a))"
    by (simp add: consistentCollation_def)
  with assms(2) True show ?thesis by (simp add: comesBefore_def)
next
  case False
  with assms(2) show ?thesis
    by (simp add: comesBefore_def fieldLess_asym)
qed

lemma comesBefore_trans:
  assumes "consistentCollation lc" and "comesBefore lc k a b" and "comesBefore lc k b c"
  shows "comesBefore lc k a c"
proof (cases "k = ''tokenPair''")
  case True
  from assms(1) have "\<And>s t u. lc s t < 0 \<Longrightarrow> lc t u < 0 \<Longrightarrow> lc s u < 0"
    unfolding consistentCollation_def by blast
  with assms(2,3) True show ?thesis by (simp add: comesBefore_def)
next
  case False
  with assms(2,3) show ?thesis
    using fieldLess_trans [of k a b c] by (simp add: comesBefore_def)
qed

lemma consistentCollation_codeUnitCompare: "consistentCollation codeUnitCompare"
  by (auto simp: consistentCollation_def codeUnitCompare_def)

section \<open>Properties of the comparators on unknown keys and unset directions\<close>

lemma tokenPair_examples:
  "tokenPair order1 = ''BTC-SOL''" "tokenPair order2 = ''RAY-USDC''" "tokenPair order3 = ''RAY-USDC''"
  by (simp_all add: tokenPair_def order1_def order2_def order3_def)

lemma examples_differ: "order1 \<noteq> order2" "order1 \<noteq> order3" "order2 \<noteq> order3"
  by (simp_all add: order1_def order2_def order3_def)

lemma fieldLess_unknown:
  "k \<notin> set orderFields \<Longrightarrow> \<not> fieldLess k a b"
  by (simp add: orderFields_def fieldLess_def)

lemma compareOrders_unknown:
  assumes "k \<notin> set orderFields" and "k \<noteq> ''tokenPair''"
  shows "\<not> compareOrders localeCompare \<lparr>key = k, direction = d\<rparr> a b < 0"
  using assms fieldLess_unknown [of k a b] fieldLess_unknown [of k b a]
  by (simp add: compareOrders_def fieldGreater_flip)

lemma compareOrders_unknown_ascend:
  assumes "k \<notin> set orderFields" and "k \<noteq> ''tokenPair''"
  shows "compareOrders localeCompare \<lparr>key = k, direction = Ascend\<rparr> a b = 1"
  using assms fieldLess_unknown [of k a b]
  by (simp add: compareOrders_def)

lemma compareByField_unknown:
  assumes "k \<notin> set orderFields"
  shows "compareByField \<lparr>key = k, direction = d\<rparr> a b = 0"
  using assms fieldLess_unknown [of k a b] fieldLess_unknown [of k b a]
  by (simp add: compareByField_def fieldGreater_flip)

lemma array_sort_le_no_after:
  "\<forall>a. \<forall>b. cmp a b \<le> 0 \<Longrightarrow> array_sort_le cmp xs = xs"
proof (induction xs)
  case Nil
  show ?case by (simp add: array_sort_le_def)
next
  case (Cons x xs)
  then have "array_sort_le cmp (x # xs) = insertSorted_le cmp x xs"
    by (simp add: array_sort_le_def)
  also have "\<dots> = x # xs" using Cons.prems by (cases xs) simp_all
  finally show ?case .
qed

lemma sortOrders_byField_unknown_key:
  assumes "k \<notin> set orderFields"
  shows "array_sort (compareByField \<lparr>key = k, direction = d\<rparr>) orders = orders"
    and "array_sort_le (compareByField \<lparr>key = k, direction = d\<rparr>) orders = orders"
proof -
  show "array_sort (compareByField \<lparr>key = k, direction = d\<rparr>) orders = orders"
    by (rule array_sort_never_before) (simp add: compareByField_unknown [OF assms])
  show "array_sort_le (compareByField \<lparr>key = k, direction = d\<rparr>) orders = orders"
    by (rule array_sort_le_no_after) (simp add: compareByField_unknown [OF assms])
qed

lemma sortOrders_unknown_key_first_model:
  assumes "k \<notin> set orderFields" and "k \<noteq> ''tokenPair''"
  shows "sortOrders localeCompare \<lparr>key = k, direction = d\<rparr> orders = orders"
  unfolding sortOrders_def
  by (rule array_sort_never_before) (simp add: compareOrders_unknown [OF assms])

lemma price_unknown: "''price'' \<notin> set orderFields" "''price'' \<noteq> ''tokenPair''"
  by (simp_all add: orderFields_def)

lemma compareByField_NoOrder: "compareByField \<lparr>key = k, direction = NoOrder\<rparr> a b = 0"
  by (simp add: compareByField_def)

lemma sortOrders_unset_field:
  "k \<noteq> ''tokenPair'' \<Longrightarrow> sortOrders localeCompare \<lparr>key = k, direction = NoOrder\<rparr> orders = orders"
  unfolding sortOrders_def
  by (rule array_sort_never_before) (simp add: compareOrders_def)

lemma sortOrders_unset_tokenPair:
  "sortOrders localeCompare \<lparr>key = ''tokenPair'', direction = NoOrder\<rparr> orders =
   sortOrders localeCompare \<lparr>key = ''tokenPair'', direction = Descend\<rparr> orders"
proof -
  have "compareOrders localeCompare \<lparr>key = ''tokenPair'', direction = NoOrder\<rparr> =
        compareOrders localeCompare \<lparr>key = ''tokenPair'', direction = Descend\<rparr>"
    by (intro ext) (simp add: compareOrders_def)
  then show ?thesis by (simp add: sortOrders_def)
qed

lemma sortOrders_unset_tokenPair_example:
  "sortOrders codeUnitCompare \<lparr>key = ''tokenPair'', direction = NoOrder\<rparr> [order1, order2] =
     [order2, order1]"
  by (simp add: sortOrders_def array_sort_def compareOrders_def codeUnitCompare_def
      tokenPair_examples)

lemma mset_sortOrders: "mset (sortOrders localeCompare sortConfig orders) = mset orders"
  by (simp add: sortOrders_def mset_array_sort)


section \<open>Properties of the time windows and the buckets\<close>

lemma inTab_NextHour:
  "inTab parseDate now NextHour order \<longleftrightarrow>
     (\<exists>t. parseDate (executeAt order) = Some t \<and> now < t \<and> t \<le> now + 3600000)"
  by (auto simp: inTab_def Let_def date_gt_def date_le_def split: option.splits)

lemma inTab_NextDay:
  "inTab parseDate now NextDay order \<longleftrightarrow>
     (\<exists>t. parseDate (executeAt order) = Some t \<and> now < t \<and> t \<le> now + 86400000)"
  by (auto simp: inTab_def Let_def date_gt_def date_le_def split: option.splits)

lemma inTab_AllTab: "inTab parseDate now AllTab order"
  by (simp add: inTab_def)















lemma spring_morning_buckets:
  "filter (\<lambda>index. inBucket newYorkSpring2024 parseISO (springNow - 86400000) index orderMorning)
     [0..<24] = [19, 20]"
  by code_simp




section \<open>The scenarios of the specification\<close>

lemma scenario_next_hour:
  "relevantOrders parseISO exampleNow NextHour [order1, order2] = [order1]"
  by (simp add: relevantOrders_def inTab_NextHour parseISO_def exampleNow_def order1_def order2_def)

lemma scenario_amount_descending:
  "map amount (filteredOrders codeUnitCompare asciiLowerCase parseISO exampleNow AllTab noFilters
     \<lparr>key = ''amount'', direction = Descend\<rparr> [order2, order1]) = [100, 50]"
  by code_simp

lemma scenario_search_sol:
  "filterOrders asciiLowerCase \<lparr>filter_search = ''sol'', filter_inputMint = [], filter_outputMint = [],
     filter_user = []\<rparr> [order1, order2] = [order1]"
  by code_simp

section \<open>The claims\<close>

text \<open>
  C1, as corrected. In the component with the tabs the Filter Engine keeps an order
  exactly when all four conditions hold: (a) the lower-cased user contains the lower-cased
  user filter, (b) the input mint equals the selector or the selector is empty, (c) the
  same for the output mint, (d) the lower-cased search string occurs in the lower-cased
  user, input mint or output mint. In the tab-less component it keeps an order exactly
  when (a) and (d) hold and the lower-cased input and output mints contain the lower-cased
  mint filters. In both, an order that fails (a) is dropped whatever the search says.
\<close>

theorem filterOrders_keeps_iff:
  "(order \<in> set (filterOrders toLowerCase filters orders) \<longleftrightarrow>
      order \<in> set orders \<and>
      sublist (toLowerCase (filter_user filters)) (toLowerCase (user order)) \<and>
      (inputMint order = filter_inputMint filters \<or> filter_inputMint filters = []) \<and>
      (outputMint order = filter_outputMint filters \<or> filter_outputMint filters = []) \<and>
      (sublist (toLowerCase (filter_search filters)) (toLowerCase (user order)) \<or>
       sublist (toLowerCase (filter_search filters)) (toLowerCase (inputMint order)) \<or>
       sublist (toLowerCase (filter_search filters)) (toLowerCase (outputMint order)))) \<and>
   (order \<in> set (filterOrders_text toLowerCase filters orders) \<longleftrightarrow>
      order \<in> set orders \<and>
      sublist (toLowerCase (filter_user filters)) (toLowerCase (user order)) \<and>
      sublist (toLowerCase (filter_inputMint filters)) (toLowerCase (inputMint order)) \<and>
      sublist (toLowerCase (filter_outputMint filters)) (toLowerCase (outputMint order)) \<and>
      (sublist (toLowerCase (filter_search filters)) (toLowerCase (user order)) \<or>
       sublist (toLowerCase (filter_search filters)) (toLowerCase (inputMint order)) \<or>
       sublist (toLowerCase (filter_search filters)) (toLowerCase (outputMint order)))) \<and>
   (\<not> sublist (toLowerCase (filter_user filters)) (toLowerCase (user order)) \<longrightarrow>
      order \<notin> set (filterOrders toLowerCase filters orders) \<and>
      order \<notin> set (filterOrders_text toLowerCase filters orders))"
  by (auto simp: filterOrders_def filterOrders_text_def matchesFilters_def matchesFilters_text_def
      includes_iff_sublist)

theorem filterOrders_keeps_iff_witness:
  "sublist (asciiLowerCase (filter_search exampleFilters)) (asciiLowerCase (user order1)) \<and>
   \<not> sublist (asciiLowerCase (filter_user exampleFilters)) (asciiLowerCase (user order1)) \<and>
   order1 \<notin> set (filterOrders asciiLowerCase exampleFilters [order1, order2]) \<and>
   order1 \<notin> set (filterOrders_text asciiLowerCase exampleFilters [order1, order2])"
proof -
  have search: "sublist (asciiLowerCase (filter_search exampleFilters)) (asciiLowerCase (user order1))"
    by code_simp
  have user: "\<not> sublist (asciiLowerCase (filter_user exampleFilters)) (asciiLowerCase (user order1))"
    by code_simp
  from filterOrders_keeps_iff [of order1 asciiLowerCase exampleFilters "[order1, order2]"] user
  have "order1 \<notin> set (filterOrders asciiLowerCase exampleFilters [order1, order2]) \<and>
      order1 \<notin> set (filterOrders_text asciiLowerCase exampleFilters [order1, order2])" by blast
  with search user show ?thesis by blast
qed

text \<open>
  C1 as stated fails in the tab-less component: the filter text \<open>usd\<close> keeps an order
  whose input mint is \<open>USDC\<close>, though the mint neither equals the filter nor is the
  filter empty.
\<close>

theorem filterOrders_keeps_iff_counterexample:
  "order2 \<in> set (filterOrders_text asciiLowerCase usdFilters [order1, order2]) \<and>
   inputMint order2 \<noteq> filter_inputMint usdFilters \<and> filter_inputMint usdFilters \<noteq> []"
  by code_simp

text \<open>
  C2. With the tab Next Hour the partitioner returns exactly the orders whose execution
  instant \<open>t\<close> satisfies \<open>now < t \<le> now + 1h\<close>, with Next Day those with
  \<open>now < t \<le> now + 24h\<close>, and with All every order. An order that is due
  (\<open>t \<le> now\<close>) is in neither of the first two results and is in the third.
\<close>

theorem relevantOrders_window:
  "relevantOrders parseDate now NextHour orders =
     filter (\<lambda>order. \<exists>t. parseDate (executeAt order) = Some t \<and> now < t \<and> t \<le> now + 3600000)
       orders \<and>
   relevantOrders parseDate now NextDay orders =
     filter (\<lambda>order. \<exists>t. parseDate (executeAt order) = Some t \<and> now < t \<and> t \<le> now + 86400000)
       orders \<and>
   relevantOrders parseDate now AllTab orders = orders \<and>
   (\<forall>order \<in> set orders. \<forall>t. parseDate (executeAt order) = Some t \<and> t \<le> now \<longrightarrow>
      order \<notin> set (relevantOrders parseDate now NextHour orders) \<and>
      order \<notin> set (relevantOrders parseDate now NextDay orders) \<and>
      order \<in> set (relevantOrders parseDate now AllTab orders))"
  by (simp add: relevantOrders_def inTab_NextHour inTab_NextDay inTab_AllTab cong: filter_cong)

theorem relevantOrders_window_witness:
  "parseISO (executeAt order3) = Some 1704063600000 \<and> (1704063600000::int) \<le> exampleNow \<and>
   order3 \<in> set [order1, order2, order3] \<and>
   order3 \<notin> set (relevantOrders parseISO exampleNow NextHour [order1, order2, order3]) \<and>
   order3 \<notin> set (relevantOrders parseISO exampleNow NextDay [order1, order2, order3]) \<and>
   order3 \<in> set (relevantOrders parseISO exampleNow AllTab [order1, order2, order3]) \<and>
   relevantOrders parseISO exampleNow NextHour [order1, order2, order3] = [order1] \<and>
   relevantOrders parseISO exampleNow NextDay [order1, order2, order3] = [order1, order2]"
proof -
  have due: "parseISO (executeAt order3) = Some 1704063600000 \<and> (1704063600000::int) \<le> exampleNow"
    by (simp add: parseISO_def order3_def exampleNow_def)
  have mem: "order3 \<in> set [order1, order2, order3]" by simp
  have hour: "relevantOrders parseISO exampleNow NextHour [order1, order2, order3] = [order1]"
    by (simp add: relevantOrders_def inTab_NextHour parseISO_def exampleNow_def
        order1_def order2_def order3_def)
  have day: "relevantOrders parseISO exampleNow NextDay [order1, order2, order3] = [order1, order2]"
    by (simp add: relevantOrders_def inTab_NextDay parseISO_def exampleNow_def
        order1_def order2_def order3_def)
  from relevantOrders_window [of parseISO exampleNow "[order1, order2, order3]"] mem due
  have "order3 \<notin> set (relevantOrders parseISO exampleNow NextHour [order1, order2, order3]) \<and>
      order3 \<notin> set (relevantOrders parseISO exampleNow NextDay [order1, order2, order3]) \<and>
      order3 \<in> set (relevantOrders parseISO exampleNow AllTab [order1, order2, order3])"
    by blast
  with due mem hour day show ?thesis by blast
qed

text \<open>
  C3. The partitions are nested: every order of the Next Hour partition is in the Next Day
  partition, every order of the Next Day partition is in the All partition, and the All
  partition is the input.
\<close>

theorem relevantOrders_nested:
  "set (relevantOrders parseDate now NextHour orders) \<subseteq>
     set (relevantOrders parseDate now NextDay orders) \<and>
   set (relevantOrders parseDate now NextDay orders) \<subseteq>
     set (relevantOrders parseDate now AllTab orders) \<and>
   relevantOrders parseDate now AllTab orders = orders"
  by (auto simp: relevantOrders_def inTab_NextHour inTab_NextDay inTab_AllTab)

theorem relevantOrders_nested_witness:
  "set (relevantOrders parseISO exampleNow NextHour [order1, order2, order3]) \<subseteq>
     set (relevantOrders parseISO exampleNow NextDay [order1, order2, order3]) \<and>
   set (relevantOrders parseISO exampleNow NextDay [order1, order2, order3]) \<subseteq>
     set (relevantOrders parseISO exampleNow AllTab [order1, order2, order3]) \<and>
   relevantOrders parseISO exampleNow AllTab [order1, order2, order3] = [order1, order2, order3]"
  by (rule relevantOrders_nested)




text \<open>
  C5. For every order list the Aggregation Engine returns 24 labels and 24 values, and a
  bucket that no order falls into has the value zero.
\<close>

theorem fetchAggregate_bucket_count:
  "length (fst (fetchAggregateUSDCValue add tz toLocaleTimeString parseDate now orders)) = 24 \<and>
   length (snd (fetchAggregateUSDCValue add tz toLocaleTimeString parseDate now orders)) = 24 \<and>
   (\<forall>index < 24.
      (\<forall>order \<in> set orders. \<not> inBucket tz parseDate (now - 86400000) index order) \<longrightarrow>
      snd (fetchAggregateUSDCValue add tz toLocaleTimeString parseDate now orders) ! index = 0)"
proof (intro conjI allI impI)
  show "length (fst (fetchAggregateUSDCValue add tz toLocaleTimeString parseDate now orders)) = 24"
    by (simp add: fetchAggregateUSDCValue_def Let_def)
  show "length (snd (fetchAggregateUSDCValue add tz toLocaleTimeString parseDate now orders)) = 24"
    by (simp add: fetchAggregateUSDCValue_def Let_def)
next
  fix index :: nat
  assume index: "index < 24"
    and none: "\<forall>order \<in> set orders. \<not> inBucket tz parseDate (now - 86400000) index order"
  from none have "filter (inBucket tz parseDate (now - 86400000) index) orders = []"
    by (simp add: filter_empty_conv)
  with index
  show "snd (fetchAggregateUSDCValue add tz toLocaleTimeString parseDate now orders) ! index = 0"
    by (simp add: fetchAggregateUSDCValue_def Let_def)
qed

theorem fetchAggregate_bucket_count_witness:
  "length (fst (fetchAggregateUSDCValue ieeeAdd utcZone formatUTC parseISO exampleNow [order1])) = 24 \<and>
   length (snd (fetchAggregateUSDCValue ieeeAdd utcZone formatUTC parseISO exampleNow [order1])) = 24 \<and>
   (3::nat) < 24 \<and> \<not> inBucket utcZone parseISO (exampleNow - 86400000) 3 order1 \<and>
   snd (fetchAggregateUSDCValue ieeeAdd utcZone formatUTC parseISO exampleNow [order1]) ! 3 = 0"
proof -
  have empty: "\<forall>order \<in> set [order1]. \<not> inBucket utcZone parseISO (exampleNow - 86400000) 3 order"
    by (simp add: inBucket_def Let_def order1_def)
  have index: "(3::nat) < 24" by simp
  from fetchAggregate_bucket_count [of ieeeAdd utcZone formatUTC parseISO exampleNow "[order1]"]
    index empty
  have "length (fst (fetchAggregateUSDCValue ieeeAdd utcZone formatUTC parseISO exampleNow [order1])) = 24 \<and>
   length (snd (fetchAggregateUSDCValue ieeeAdd utcZone formatUTC parseISO exampleNow [order1])) = 24 \<and>
   snd (fetchAggregateUSDCValue ieeeAdd utcZone formatUTC parseISO exampleNow [order1]) ! 3 = 0"
    by blast
  with index empty show ?thesis by simp
qed

text \<open>
  C6, as corrected. When no two orders of the list have the same sort key (and the
  collation used for the token pair is a consistent comparator), sorting ascending and
  reversing gives the same sequence as sorting descending, for every field and for the
  derived token pair.
\<close>

theorem sort_ascending_reversed:
  assumes "consistentCollation localeCompare"
    and "distinct orders"
    and "\<forall>a \<in> set orders. \<forall>b \<in> set orders. a \<noteq> b \<longrightarrow> \<not> sameKey localeCompare k a b"
  shows "rev (sortOrders localeCompare \<lparr>key = k, direction = Ascend\<rparr> orders) =
         sortOrders localeCompare \<lparr>key = k, direction = Descend\<rparr> orders"
  unfolding sortOrders_def
proof (rule rev_array_sort)
  show "distinct orders" by (rule assms(2))
next
  fix a b
  show "(compareOrders localeCompare \<lparr>key = k, direction = Descend\<rparr> a b < 0) =
          (compareOrders localeCompare \<lparr>key = k, direction = Ascend\<rparr> b a < 0)"
    by (simp only: compareOrders_ascend_before compareOrders_descend_before)
next
  fix a b assume "a \<in> set orders" "b \<in> set orders" "a \<noteq> b"
  with assms(3) have "\<not> sameKey localeCompare k a b" by blast
  then have "comesBefore localeCompare k a b \<or> comesBefore localeCompare k b a"
    by (rule comesBefore_total [OF assms(1)])
  then show "compareOrders localeCompare \<lparr>key = k, direction = Ascend\<rparr> a b < 0 \<or>
          compareOrders localeCompare \<lparr>key = k, direction = Ascend\<rparr> b a < 0"
    by (simp only: compareOrders_ascend_before)
next
  fix a b assume "compareOrders localeCompare \<lparr>key = k, direction = Ascend\<rparr> a b < 0"
  then have "comesBefore localeCompare k a b" by (simp only: compareOrders_ascend_before)
  then have "\<not> comesBefore localeCompare k b a" by (rule comesBefore_asym [OF assms(1)])
  then show "\<not> compareOrders localeCompare \<lparr>key = k, direction = Ascend\<rparr> b a < 0"
    by (simp only: compareOrders_ascend_before not_False_eq_True)
next
  fix a b c
  assume "compareOrders localeCompare \<lparr>key = k, direction = Ascend\<rparr> a b < 0"
    and "compareOrders localeCompare \<lparr>key = k, direction = Ascend\<rparr> b c < 0"
  then have "comesBefore localeCompare k a b" "comesBefore localeCompare k b c"
    by (simp_all only: compareOrders_ascend_before)
  then have "comesBefore localeCompare k a c" by (rule comesBefore_trans [OF assms(1)])
  then show "compareOrders localeCompare \<lparr>key = k, direction = Ascend\<rparr> a c < 0"
    by (simp only: compareOrders_ascend_before)
qed

theorem sort_ascending_reversed_witness:
  "consistentCollation codeUnitCompare \<and> distinct [order2, order1] \<and>
   \<not> sameKey codeUnitCompare ''tokenPair'' order1 order2 \<and>
   \<not> sameKey codeUnitCompare ''tokenPair'' order2 order1 \<and>
   sortOrders codeUnitCompare \<lparr>key = ''tokenPair'', direction = Ascend\<rparr> [order2, order1] =
     [order1, order2] \<and>
   rev (sortOrders codeUnitCompare \<lparr>key = ''tokenPair'', direction = Ascend\<rparr> [order2, order1]) =
     sortOrders codeUnitCompare \<lparr>key = ''tokenPair'', direction = Descend\<rparr> [order2, order1]"
proof -
  have dist: "distinct [order2, order1]" using examples_differ by simp
  have ties: "\<not> sameKey codeUnitCompare ''tokenPair'' order1 order2"
    "\<not> sameKey codeUnitCompare ''tokenPair'' order2 order1"
    by (simp_all add: sameKey_def codeUnitCompare_def tokenPair_examples)
  have noties: "\<forall>a \<in> set [order2, order1]. \<forall>b \<in> set [order2, order1].
      a \<noteq> b \<longrightarrow> \<not> sameKey codeUnitCompare ''tokenPair'' a b"
    using ties by simp
  have asc: "sortOrders codeUnitCompare \<lparr>key = ''tokenPair'', direction = Ascend\<rparr> [order2, order1] =
     [order1, order2]"
    by (simp add: sortOrders_def array_sort_def compareOrders_def codeUnitCompare_def
        tokenPair_examples)
  from sort_ascending_reversed [OF consistentCollation_codeUnitCompare dist noties]
    consistentCollation_codeUnitCompare dist ties asc
  show ?thesis by blast
qed

text \<open>
  C6 as stated fails on ties: two orders of one token pair keep their input order in both
  directions, so the reversed ascending result differs from the descending one.
\<close>

theorem sort_ascending_reversed_counterexample:
  "rev (sortOrders codeUnitCompare \<lparr>key = ''tokenPair'', direction = Ascend\<rparr> [order2, order3]) \<noteq>
   sortOrders codeUnitCompare \<lparr>key = ''tokenPair'', direction = Descend\<rparr> [order2, order3]"
  by (simp add: sortOrders_def array_sort_def compareOrders_def codeUnitCompare_def
      tokenPair_examples examples_differ)

text \<open>
  C7. For a key that is neither a field of the order nor the token pair, the comparator of
  the component with the token-pair column answers 1 for every pair, in both argument
  orders. That is not a consistent comparator, so the resulting order is the engine's
  choice: the first sort model leaves the list as it is, the second reverses it. The
  comparator of the other tabbed component answers 0 for such a key, and the list stays
  as it is under both models.
\<close>

theorem unknown_key_order_depends_on_engine:
  "compareOrders codeUnitCompare \<lparr>key = ''price'', direction = Ascend\<rparr> order2 order1 = 1 \<and>
   compareOrders codeUnitCompare \<lparr>key = ''price'', direction = Ascend\<rparr> order1 order2 = 1 \<and>
   array_sort (compareOrders codeUnitCompare \<lparr>key = ''price'', direction = Ascend\<rparr>)
     [order2, order1, order3] = [order2, order1, order3] \<and>
   array_sort_le (compareOrders codeUnitCompare \<lparr>key = ''price'', direction = Ascend\<rparr>)
     [order2, order1, order3] = [order3, order1, order2] \<and>
   compareByField \<lparr>key = ''price'', direction = Ascend\<rparr> order2 order1 = 0 \<and>
   array_sort_le (compareByField \<lparr>key = ''price'', direction = Ascend\<rparr>)
     [order2, order1, order3] = [order2, order1, order3]"
  by (simp add: compareOrders_unknown_ascend [OF price_unknown] compareByField_unknown [OF price_unknown(1)]
      array_sort_def array_sort_le_def)

text \<open>
  C8. With the direction unset (\<^verbatim>\<open>null\<close>), the Sort Engine of the component whose
  table can clear the sort returns the input sequence unchanged, for every key.
\<close>

theorem sortOrders_byField_unset:
  "sortOrders_byField \<lparr>key = k, direction = NoOrder\<rparr> orders = orders"
  unfolding sortOrders_byField_def
  by (rule array_sort_never_before) (simp add: compareByField_NoOrder)

text \<open>
  C9. Filtering an already filtered list with the same criteria changes nothing: the
  Filter Engine is idempotent.
\<close>

theorem filterOrders_idempotent:
  "filterOrders toLowerCase filters (filterOrders toLowerCase filters orders) =
     filterOrders toLowerCase filters orders"
  by (simp add: filterOrders_def)

text \<open>
  C10. The output of the partitioner followed by the Filter Engine is a subsequence of the
  input: it arises from the input by deleting orders, so the kept records are unchanged and
  in their input order. The same holds for the filter of the tab-less component.
\<close>

theorem partition_filter_subseq:
  "subseq (filterOrders toLowerCase filters (relevantOrders parseDate now activeTab orders)) orders \<and>
   subseq (filterOrders_text toLowerCase filters orders) orders"
  by (simp add: filterOrders_def filterOrders_text_def relevantOrders_def)

theorem partition_filter_subseq_witness:
  "filterOrders asciiLowerCase noFilters
     (relevantOrders parseISO exampleNow NextDay [order3, order1, order2]) = [order1, order2] \<and>
   subseq [order1, order2] [order3, order1, order2]"
proof -
  have kept: "filterOrders asciiLowerCase noFilters
      (relevantOrders parseISO exampleNow NextDay [order3, order1, order2]) = [order1, order2]"
    by (simp add: filterOrders_def matchesFilters_def noFilters_def asciiLowerCase_def
        relevantOrders_def inTab_NextDay parseISO_def exampleNow_def order1_def order2_def order3_def)
  from partition_filter_subseq [of asciiLowerCase noFilters parseISO exampleNow NextDay
      "[order3, order1, order2]"]
  have "subseq (filterOrders asciiLowerCase noFilters
      (relevantOrders parseISO exampleNow NextDay [order3, order1, order2])) [order3, order1, order2]"
    by blast
  with kept show ?thesis by simp
qed

section \<open>Further properties\<close>

text \<open>
  The tab-less component keeps an order whose input mint merely contains the filter text;
  the component with the tabs does not.
\<close>

lemma filterOrders_text_substring_example:
  "order2 \<in> set (filterOrders_text asciiLowerCase usdFilters [order1, order2]) \<and>
   order2 \<notin> set (filterOrders asciiLowerCase usdFilters [order1, order2])"
  by code_simp

end
